theory Spec2Isabelle
  imports Main "HOL-Library.Char_ord" "HOL-Library.List_Lexorder" "HOL-Library.AList"
begin

section \<open>Strings\<close>

text \<open>
  A JavaScript string is a sequence of UTF-16 code units. The model covers the strings
  whose code units are below 256 (the type \<^typ>\<open>char\<close>), which contains the hexadecimal
  wallet addresses the server is written for. On these code units
  \<^verbatim>\<open>String.prototype.toLowerCase\<close> works unit by unit: it adds 32 to the units of
  \<^verbatim>\<open>A\<close>..\<^verbatim>\<open>Z\<close> (65..90) and to the upper-case letters of Latin-1 (192..222
  without the multiplication sign 215), and leaves every other unit as it is.

  \<^verbatim>\<open>Array.prototype.sort\<close> without a comparison function orders strings by their code
  units, a proper prefix first: this is the order of \<^typ>\<open>string\<close> given by
  \<^verbatim>\<open>HOL-Library.Char_ord\<close> and \<^verbatim>\<open>HOL-Library.List_Lexorder\<close>, and the sort of
  a two-element array is \<^const>\<open>sort\<close> on it.
\<close>

definition toLowerCase_unit :: "char \<Rightarrow> char" where
  "toLowerCase_unit c =
     (let n = (of_char c :: nat)
      in if (65 \<le> n \<and> n \<le> 90) \<or> (192 \<le> n \<and> n \<le> 222 \<and> n \<noteq> 215)
         then char_of (n + 32) else c)"

definition toLowerCase :: "string \<Rightarrow> string" where
  "toLowerCase s = map toLowerCase_unit s"

text \<open>
  \<^verbatim>\<open>
  function getConversationId(wallet1, wallet2) {
      const sorted = [wallet1.toLowerCase(), wallet2.toLowerCase()].sort();
      return `${sorted[0]}_${sorted[1]}`;
  }
  \<close>
\<close>

definition getConversationId :: "string \<Rightarrow> string \<Rightarrow> string" where
  "getConversationId wallet1 wallet2 =
     (let sorted = sort [toLowerCase wallet1, toLowerCase wallet2]
      in sorted ! 0 @ ''_'' @ sorted ! 1)"

section \<open>The persisted store\<close>

text \<open>
  A message as \<^verbatim>\<open>POST /chat/send\<close> builds it. The fields \<^verbatim>\<open>id\<close>, \<^verbatim>\<open>from\<close>,
  \<^verbatim>\<open>to\<close>, \<^verbatim>\<open>message\<close>, \<^verbatim>\<open>messageType\<close>, \<^verbatim>\<open>timestamp\<close> and \<^verbatim>\<open>read\<close> carry the
  prefix \<open>m_\<close> here.
\<close>

record message =
  m_id :: string
  m_from :: string
  m_to :: string
  m_message :: string
  m_messageType :: string
  m_timestamp :: string
  m_read :: bool

text \<open>
  A conversation as the server writes it. \<^verbatim>\<open>lastMessageAt\<close> is not set when the object is
  created, and set by every send.
\<close>

record conversation =
  participants :: "string list"
  messages :: "message list"
  createdAt :: string
  lastMessageAt :: "string option"

text \<open>
  \<^verbatim>\<open>messagesData.conversations\<close> is a plain object from conversation ids to conversations.
  It is modelled by the list of its own properties in the order of \<^verbatim>\<open>Object.values\<close>,
  which is the order of insertion (a conversation id holds an underscore, so it is never an
  array index): assigning to a key that is present replaces its value in place, assigning
  to a new key appends (\<^const>\<open>AList.update\<close>). The model covers the stores in which every
  conversation has the four fields above, as every conversation the server writes has.
\<close>

type_synonym conversations = "(string \<times> conversation) list"

text \<open>
  The file \<^verbatim>\<open>messages.json\<close>: its parsed content, or \<open>None\<close> when it is missing or is not
  JSON. \<open>writes\<close> counts the calls of \<^verbatim>\<open>writeMessages\<close>, so that a write that does not
  change the content is visible too. Failures of the file system are not modelled.
\<close>

record disk =
  messages_file :: "conversations option"
  writes :: nat

definition writeMessages :: "conversations \<Rightarrow> disk \<Rightarrow> disk" where
  "writeMessages data d = d\<lparr>messages_file := Some data, writes := Suc (writes d)\<rparr>"

definition readMessages :: "disk \<Rightarrow> conversations \<times> disk" where
  "readMessages d =
     (case messages_file d of
        Some data \<Rightarrow> (data, d)
      | None \<Rightarrow> (let defaultData = [] in (defaultData, writeMessages defaultData d)))"

text \<open>
  What \<^verbatim>\<open>messagesData.conversations[conversationId]\<close> evaluates to. The object is built by
  \<^verbatim>\<open>JSON.parse\<close> or by a literal, so its prototype is \<^verbatim>\<open>Object.prototype\<close>: when it has
  no own property \<^verbatim>\<open>__proto__\<close>, reading that key gives the prototype object, which is
  truthy and has neither \<^verbatim>\<open>messages\<close> nor \<^verbatim>\<open>participants\<close>. No other inherited property
  is the result of \<^verbatim>\<open>getConversationId\<close>: the other inherited names that hold an underscore
  (\<^verbatim>\<open>__defineGetter__\<close> and its three siblings) hold an upper-case letter.
\<close>

datatype property = Undefined | ObjectPrototype | Conversation conversation

definition conversations_get :: "conversations \<Rightarrow> string \<Rightarrow> property" where
  "conversations_get conversations conversationId =
     (case map_of conversations conversationId of
        Some conversation \<Rightarrow> Conversation conversation
      | None \<Rightarrow> if conversationId = ''__proto__'' then ObjectPrototype else Undefined)"

section \<open>GET /chat/conversation/:wallet1/:wallet2\<close>

text \<open>
  The body of the response: \<^verbatim>\<open>participants\<close> is \<open>None\<close> when the handler passes
  \<^verbatim>\<open>undefined\<close> there.
\<close>

record conversation_response =
  r_conversationId :: string
  r_messages :: "message list"
  r_participants :: "string list option"

text \<open>
  \<^verbatim>\<open>
  conversation.messages.forEach(msg => {
      if (msg.to.toLowerCase() === wallet1.toLowerCase()) {
          msg.read = true;
      }
  });
  \<close>
\<close>

definition mark_read :: "string \<Rightarrow> message \<Rightarrow> message" where
  "mark_read wallet1 msg =
     (if toLowerCase (m_to msg) = toLowerCase wallet1 then msg\<lparr>m_read := True\<rparr> else msg)"

text \<open>
  The handler. When the conversation exists, its messages are marked in place and the whole
  store is written, whether or not a flag changed. The prototype object has no
  \<^verbatim>\<open>messages\<close>, so nothing is marked or written for it, and the response carries
  \<^verbatim>\<open>conversation.messages || []\<close> and \<^verbatim>\<open>conversation.participants\<close>, which is undefined.
\<close>

definition chat_conversation :: "string \<Rightarrow> string \<Rightarrow> disk \<Rightarrow> conversation_response \<times> disk" where
  "chat_conversation wallet1 wallet2 d =
     (let conversationId = getConversationId wallet1 wallet2;
          (messagesData, d1) = readMessages d
      in case conversations_get messagesData conversationId of
           Undefined \<Rightarrow>
             (\<lparr>r_conversationId = conversationId, r_messages = [],
               r_participants = Some [toLowerCase wallet1, toLowerCase wallet2]\<rparr>, d1)
         | ObjectPrototype \<Rightarrow>
             (\<lparr>r_conversationId = conversationId, r_messages = [],
               r_participants = None\<rparr>, d1)
         | Conversation conversation \<Rightarrow>
             (let marked = conversation\<lparr>messages := map (mark_read wallet1) (messages conversation)\<rparr>
              in (\<lparr>r_conversationId = conversationId, r_messages = messages marked,
                    r_participants = Some (participants marked)\<rparr>,
                  writeMessages (AList.update conversationId marked messagesData) d1)))"

section \<open>POST /chat/send\<close>

text \<open>
  A field of the request body is a string or is missing (\<open>None\<close>); a string is falsy when
  it is empty. Values of other JSON types are outside the model.
\<close>

definition truthy :: "string option \<Rightarrow> bool" where
  "truthy v = (case v of None \<Rightarrow> False | Some s \<Rightarrow> s \<noteq> [])"

text \<open>
  What the handler takes from the clock and the random generator: the three
  \<^verbatim>\<open>new Date().toISOString()\<close> and the message id
  \<^verbatim>\<open>msg_${Date.now()}_${Math.random().toString(36).substr(2, 9)}\<close>.
\<close>

record send_env =
  env_createdAt :: string
  env_id :: string
  env_timestamp :: string
  env_lastMessageAt :: string

datatype error = BadRequest | InternalServerError

definition created_conversation :: "string \<Rightarrow> string \<Rightarrow> send_env \<Rightarrow> conversation" where
  "created_conversation from to env =
     \<lparr>participants = [toLowerCase from, toLowerCase to], messages = [],
      createdAt = env_createdAt env, lastMessageAt = None\<rparr>"

definition newMessage :: "string \<Rightarrow> string \<Rightarrow> string \<Rightarrow> string option \<Rightarrow> send_env \<Rightarrow> message" where
  "newMessage from to message messageType env =
     \<lparr>m_id = env_id env, m_from = toLowerCase from, m_to = toLowerCase to,
      m_message = message,
      m_messageType = (case messageType of None \<Rightarrow> ''text'' | Some t \<Rightarrow> if t = [] then ''text'' else t),
      m_timestamp = env_timestamp env, m_read = False\<rparr>"

text \<open>\<^verbatim>\<open>xs.slice(-n)\<close>: the last \<open>n\<close> elements, all of them when there are fewer.\<close>

definition slice_last :: "nat \<Rightarrow> 'a list \<Rightarrow> 'a list" where
  "slice_last n xs = drop (length xs - n) xs"

text \<open>
  \<^verbatim>\<open>
  messages.push(newMessage);
  if (messages.length > 3) { messages = messages.slice(-3); }
  \<close>
\<close>

definition push_keep3 :: "message list \<Rightarrow> message \<Rightarrow> message list" where
  "push_keep3 msgs msg =
     (let pushed = msgs @ [msg] in if length pushed > 3 then slice_last 3 pushed else pushed)"

definition push_message :: "conversation \<Rightarrow> message \<Rightarrow> send_env \<Rightarrow> conversation" where
  "push_message conversation msg env =
     conversation\<lparr>messages := push_keep3 (messages conversation) msg,
                  lastMessageAt := Some (env_lastMessageAt env)\<rparr>"

text \<open>
  The handler, after the validation. A conversation is created when the lookup is falsy.
  For the prototype object the lookup is truthy, nothing is created, and
  \<^verbatim>\<open>.messages.push\<close> throws a \<^verbatim>\<open>TypeError\<close> on \<^verbatim>\<open>undefined\<close>: the \<^verbatim>\<open>catch\<close> answers 500
  and nothing is written.
\<close>

definition send_valid :: "string \<Rightarrow> string \<Rightarrow> string \<Rightarrow> string option \<Rightarrow> send_env \<Rightarrow> disk
    \<Rightarrow> (error + message) \<times> disk" where
  "send_valid from to message messageType env d =
     (let conversationId = getConversationId from to;
          (messagesData, d1) = readMessages d;
          msg = newMessage from to message messageType env
      in case conversations_get messagesData conversationId of
           ObjectPrototype \<Rightarrow> (Inl InternalServerError, d1)
         | Undefined \<Rightarrow>
             (Inr msg,
              writeMessages (AList.update conversationId
                (push_message (created_conversation from to env) msg env) messagesData) d1)
         | Conversation conversation \<Rightarrow>
             (Inr msg,
              writeMessages (AList.update conversationId
                (push_message conversation msg env) messagesData) d1))"

text \<open>
  \<^verbatim>\<open>
  if (!from || !to || !message) {
      return res.status(400).json({ error: 'From, to, and message are required' });
  }
  \<close>
\<close>

definition chat_send :: "string option \<Rightarrow> string option \<Rightarrow> string option \<Rightarrow> string option
    \<Rightarrow> send_env \<Rightarrow> disk \<Rightarrow> (error + message) \<times> disk" where
  "chat_send from to message messageType env d =
     (if \<not> truthy from \<or> \<not> truthy to \<or> \<not> truthy message then (Inl BadRequest, d)
      else case (from, to, message) of
             (Some f, Some t, Some m) \<Rightarrow> send_valid f t m messageType env d
           | _ \<Rightarrow> (Inl BadRequest, d))"

section \<open>GET /chat/unread/:walletAddress\<close>

definition unread_for :: "string \<Rightarrow> message list \<Rightarrow> nat" where
  "unread_for userWallet msgs =
     length (filter (\<lambda>msg. m_to msg = userWallet \<and> \<not> m_read msg) msgs)"

definition chat_unread :: "string \<Rightarrow> disk \<Rightarrow> nat \<times> disk" where
  "chat_unread wallet d =
     (let userWallet = toLowerCase wallet;
          (messagesData, d1) = readMessages d;
          totalUnread =
            fold (\<lambda>conversation totalUnread.
                    if userWallet \<in> set (participants conversation)
                    then totalUnread + unread_for userWallet (messages conversation)
                    else totalUnread)
                 (map snd messagesData) 0
      in (totalUnread, d1))"

section \<open>GET /chat/available-users/:walletAddress\<close>

text \<open>
  The path parameter \<^verbatim>\<open>walletAddress\<close> of this handler and of the unread handler is
  called \<open>wallet\<close> here, \<open>walletAddress\<close> being the field of a participant. The profile fields of a participant are copied and never inspected; they are JSON
  values, \<open>JUndefined\<close> when the property is absent.
\<close>

datatype jsvalue = JUndefined | JString string | JNumber nat | JObject "(string \<times> jsvalue) list"

record participant =
  walletAddress :: string
  platformUsername :: jsvalue
  gamertags :: jsvalue

text \<open>
  A tournament of the roster: \<^verbatim>\<open>participants\<close> and \<^verbatim>\<open>status\<close> may be absent. A game:
  \<^verbatim>\<open>tournaments\<close>, as the list \<^verbatim>\<open>Object.values(game.tournaments)\<close>, may be absent. The answer
  of \<^verbatim>\<open>fetch\<close>: a rejected promise, a status that is not ok, or the list
  \<^verbatim>\<open>Object.values(gamesData)\<close>. Participants whose \<^verbatim>\<open>walletAddress\<close> is not a string are
  outside the model.
\<close>

record tournament =
  t_participants :: "participant list option"
  status :: "string option"

record game =
  tournaments :: "tournament list option"

datatype games_response = FetchRejected | NotOk | Games "game list"

text \<open>
  \<^verbatim>\<open>
  const isParticipant = tournament.participants?.some(p =>
      p.walletAddress.toLowerCase() === userWallet);
  \<close>
\<close>

definition isParticipant :: "string \<Rightarrow> tournament \<Rightarrow> bool" where
  "isParticipant userWallet tournament =
     (case t_participants tournament of
        None \<Rightarrow> False
      | Some ps \<Rightarrow> list_ex (\<lambda>p. toLowerCase (walletAddress p) = userWallet) ps)"

text \<open>
  \<^verbatim>\<open>availableUsers\<close> is a \<^verbatim>\<open>Map\<close>: its entries in the order of insertion. The body of
  the innermost \<^verbatim>\<open>forEach\<close>:
  \<^verbatim>\<open>
  const pWallet = participant.walletAddress.toLowerCase();
  if (pWallet !== userWallet && !availableUsers.has(pWallet)) {
      availableUsers.set(pWallet, { walletAddress: participant.walletAddress,
          platformUsername: participant.platformUsername,
          gamertags: participant.gamertags });
  }
  \<close>
\<close>

definition add_participant :: "string \<Rightarrow> participant \<Rightarrow> (string \<times> participant) list
    \<Rightarrow> (string \<times> participant) list" where
  "add_participant userWallet participant availableUsers =
     (let pWallet = toLowerCase (walletAddress participant)
      in if pWallet \<noteq> userWallet \<and> map_of availableUsers pWallet = None
         then availableUsers @
                [(pWallet, \<lparr>walletAddress = walletAddress participant,
                            platformUsername = platformUsername participant,
                            gamertags = gamertags participant\<rparr>)]
         else availableUsers)"

definition visit_tournament :: "string \<Rightarrow> tournament \<Rightarrow> (string \<times> participant) list
    \<Rightarrow> (string \<times> participant) list" where
  "visit_tournament userWallet tournament availableUsers =
     (if isParticipant userWallet tournament \<and> status tournament \<noteq> Some ''finished''
      then case t_participants tournament of
             None \<Rightarrow> availableUsers
           | Some ps \<Rightarrow> fold (add_participant userWallet) ps availableUsers
      else availableUsers)"

definition visit_game :: "string \<Rightarrow> game \<Rightarrow> (string \<times> participant) list
    \<Rightarrow> (string \<times> participant) list" where
  "visit_game userWallet game availableUsers =
     (case tournaments game of
        None \<Rightarrow> availableUsers
      | Some ts \<Rightarrow> fold (visit_tournament userWallet) ts availableUsers)"

text \<open>
  An element of \<^verbatim>\<open>usersWithUnread\<close>, the object \<^verbatim>\<open>{ ...user, unreadCount }\<close>, as the list
  of its properties. For the prototype object \<^verbatim>\<open>conversation?.messages\<close> is undefined, as
  it is when there is no conversation.
\<close>

definition with_unread :: "string \<Rightarrow> conversations \<Rightarrow> participant \<Rightarrow> (string \<times> jsvalue) list" where
  "with_unread userWallet messagesData user =
     (let convId = getConversationId userWallet (walletAddress user);
          unreadCount =
            (case conversations_get messagesData convId of
               Conversation conversation \<Rightarrow>
                 length (filter (\<lambda>msg. toLowerCase (m_to msg) = userWallet \<and> \<not> m_read msg)
                           (messages conversation))
             | _ \<Rightarrow> 0)
      in [(''walletAddress'', JString (walletAddress user)),
          (''platformUsername'', platformUsername user),
          (''gamertags'', gamertags user),
          (''unreadCount'', JNumber unreadCount)])"

record users_response =
  r_users :: "(string \<times> jsvalue) list list"
  r_count :: nat

datatype users_error = FailedToFetch | UsersInternalServerError

definition chat_available_users :: "string \<Rightarrow> games_response \<Rightarrow> disk
    \<Rightarrow> (users_error + users_response) \<times> disk" where
  "chat_available_users wallet gamesResponse d =
     (let userWallet = toLowerCase wallet
      in case gamesResponse of
           FetchRejected \<Rightarrow> (Inl UsersInternalServerError, d)
         | NotOk \<Rightarrow> (Inl FailedToFetch, d)
         | Games gamesData \<Rightarrow>
             (let availableUsers = fold (visit_game userWallet) gamesData [];
                  (messagesData, d1) = readMessages d;
                  usersWithUnread = map (with_unread userWallet messagesData) (map snd availableUsers)
              in (Inr \<lparr>r_users = usersWithUnread, r_count = length usersWithUnread\<rparr>, d1)))"

section \<open>Sequences of requests\<close>

text \<open>
  The requests are handled one after the other; each handler runs on the disk the previous
  one left. A server that has never run has no file.
\<close>

datatype request =
    AvailableUsers string games_response
  | GetConversation string string
  | Send "string option" "string option" "string option" "string option" send_env
  | Unread string

fun handle :: "request \<Rightarrow> disk \<Rightarrow> disk" where
  "handle (AvailableUsers wallet gamesResponse) d =
     snd (chat_available_users wallet gamesResponse d)"
| "handle (GetConversation wallet1 wallet2) d = snd (chat_conversation wallet1 wallet2 d)"
| "handle (Send from to message messageType env) d =
     snd (chat_send from to message messageType env d)"
| "handle (Unread wallet) d = snd (chat_unread wallet d)"

definition run :: "request list \<Rightarrow> disk \<Rightarrow> disk" where
  "run reqs d = fold handle reqs d"

definition first_start :: disk where
  "first_start = \<lparr>messages_file = None, writes = 0\<rparr>"

text \<open>The store a handler reads from a disk, and the messages it finds under a key.\<close>

definition stored :: "disk \<Rightarrow> conversations" where
  "stored d = fst (readMessages d)"

definition thread :: "disk \<Rightarrow> string \<Rightarrow> message list" where
  "thread d conversationId =
     (case map_of (stored d) conversationId of
        None \<Rightarrow> []
      | Some conversation \<Rightarrow> messages conversation)"

section \<open>The history of a conversation\<close>

text \<open>
  The messages a request appends to the conversation \<open>k\<close> when it is handled on the disk
  \<open>d\<close>: the created message of a send that succeeds on that conversation. Over a sequence
  of requests, in the order of creation.
\<close>

fun appends :: "request \<Rightarrow> disk \<Rightarrow> string \<Rightarrow> message list" where
  "appends (Send (Some from) (Some to) message messageType env) d k =
     (case fst (chat_send (Some from) (Some to) message messageType env d) of
        Inl e \<Rightarrow> []
      | Inr msg \<Rightarrow> if getConversationId from to = k then [msg] else [])"
| "appends r d k = []"

fun appended :: "request list \<Rightarrow> disk \<Rightarrow> string \<Rightarrow> message list" where
  "appended [] d k = []"
| "appended (r # rs) d k = appends r d k @ appended rs (handle r d) k"

text \<open>A message with its \<open>read\<close> flag as it was created.\<close>

definition unread_copy :: "message \<Rightarrow> message" where
  "unread_copy msg = msg\<lparr>m_read := False\<rparr>"

text \<open>
  \<open>kept msg msg'\<close>: \<open>msg'\<close> is \<open>msg\<close> at a later time, with every field but \<open>read\<close> as it
  was, and \<open>read\<close> still true if it was.
\<close>

definition kept :: "message \<Rightarrow> message \<Rightarrow> bool" where
  "kept msg msg' = (msg'\<lparr>m_read := m_read msg\<rparr> = msg \<and> (m_read msg \<longrightarrow> m_read msg'))"

section \<open>The operations in the words of the specification\<close>

text \<open>
  \<open>countFor(wallet)\<close>: the sum, over every conversation where the canonical wallet is a
  participant, of the messages with \<open>to == wallet\<close> and \<open>read == false\<close>.
\<close>

definition spec_countFor :: "conversations \<Rightarrow> string \<Rightarrow> nat" where
  "spec_countFor store wallet =
     sum_list (map (\<lambda>c. length (filter (\<lambda>msg. m_to msg = toLowerCase wallet \<and> \<not> m_read msg) (messages c)))
                   (filter (\<lambda>c. toLowerCase wallet \<in> set (participants c)) (map snd store)))"

text \<open>
  The same sum when wallets are compared as identities, that is by their lower-case forms,
  in the participants and in \<open>to\<close>.
\<close>

definition spec_countFor_canonical :: "conversations \<Rightarrow> string \<Rightarrow> nat" where
  "spec_countFor_canonical store wallet =
     sum_list (map (\<lambda>c. length (filter (\<lambda>msg. toLowerCase (m_to msg) = toLowerCase wallet \<and> \<not> m_read msg)
                                      (messages c)))
                   (filter (\<lambda>c. toLowerCase wallet \<in> set (map toLowerCase (participants c)))
                      (map snd store)))"


text \<open>De-duplication by a key, the first occurrence winning.\<close>

fun dedup_by :: "('a \<Rightarrow> 'k) \<Rightarrow> 'a list \<Rightarrow> 'a list" where
  "dedup_by key [] = []"
| "dedup_by key (x # xs) = x # dedup_by key (filter (\<lambda>y. key y \<noteq> key x) xs)"

text \<open>
  \<open>listAvailablePeers(wallet)\<close>: the participants of the tournaments that are not finished and
  in which the wallet takes part, without the wallet itself, de-duplicated by wallet
  identity. The tournaments are taken in the order of the roster.
\<close>

definition roster_of :: "tournament \<Rightarrow> participant list" where
  "roster_of t = (case t_participants t of None \<Rightarrow> [] | Some ps \<Rightarrow> ps)"

definition tournaments_of :: "game \<Rightarrow> tournament list" where
  "tournaments_of g = (case tournaments g of None \<Rightarrow> [] | Some ts \<Rightarrow> ts)"

definition spec_shared_open :: "string \<Rightarrow> tournament \<Rightarrow> bool" where
  "spec_shared_open wallet t =
     (list_ex (\<lambda>p. toLowerCase (walletAddress p) = toLowerCase wallet) (roster_of t) \<and>
      status t \<noteq> Some ''finished'')"

definition spec_peers :: "string \<Rightarrow> game list \<Rightarrow> participant list" where
  "spec_peers wallet gamesData =
     dedup_by (\<lambda>p. toLowerCase (walletAddress p))
       (filter (\<lambda>p. toLowerCase (walletAddress p) \<noteq> toLowerCase wallet)
          (concat (map roster_of
             (filter (spec_shared_open wallet) (concat (map tournaments_of gamesData))))))"

section \<open>Stored wallets\<close>

text \<open>
  A conversation whose participants and whose messages' \<open>from\<close> and \<open>to\<close> are lower-case
  forms, that is strings that \<^verbatim>\<open>toLowerCase\<close> leaves as they are.
\<close>

definition lowercased :: "conversation \<Rightarrow> bool" where
  "lowercased c =
     (list_all (\<lambda>p. toLowerCase p = p) (participants c) \<and>
      list_all (\<lambda>msg. toLowerCase (m_from msg) = m_from msg \<and> toLowerCase (m_to msg) = m_to msg)
        (messages c))"

section \<open>Concrete inputs\<close>

text \<open>The clock and the random generator of the examples: the message id is given.\<close>

definition env_at :: "string \<Rightarrow> send_env" where
  "env_at i =
     \<lparr>env_createdAt = ''2024-01-01T00:00:00.000Z'', env_id = ''msg_'' @ i,
      env_timestamp = ''2024-01-01T00:00:00.001Z'',
      env_lastMessageAt = ''2024-01-01T00:00:00.002Z''\<rparr>"

text \<open>A text message from one wallet to another, as a request.\<close>

definition text_from_to :: "string \<Rightarrow> string \<Rightarrow> string \<Rightarrow> string \<Rightarrow> request" where
  "text_from_to from to message i = Send (Some from) (Some to) (Some message) None (env_at i)"

text \<open>
  Four messages between \<^verbatim>\<open>A\<close> and \<^verbatim>\<open>B\<close>, and one message that its recipient fetches.
\<close>

definition four_messages :: "request list" where
  "four_messages =
     [text_from_to ''A'' ''B'' ''hi'' ''1'', text_from_to ''B'' ''A'' ''yo'' ''2'',
      text_from_to ''A'' ''B'' ''sup'' ''3'', text_from_to ''A'' ''B'' ''again'' ''4'']"

definition sent_and_fetched :: "request list" where
  "sent_and_fetched = [text_from_to ''A'' ''B'' ''hi'' ''1'', GetConversation ''b'' ''a'']"

text \<open>
  The conversation that one message from \<^verbatim>\<open>A\<close> to \<^verbatim>\<open>B\<close> creates. Two pairs of wallets
  with the same conversation id, \<^verbatim>\<open>a_b\<close> with \<^verbatim>\<open>c\<close> and \<^verbatim>\<open>b_c\<close> with \<^verbatim>\<open>a\<close>, each
  sending one message.
\<close>

definition hi_conversation :: conversation where
  "hi_conversation =
     \<lparr>participants = [''a'', ''b''],
      messages = [\<lparr>m_id = ''msg_1'', m_from = ''a'', m_to = ''b'', m_message = ''hi'',
                   m_messageType = ''text'', m_timestamp = ''2024-01-01T00:00:00.001Z'',
                   m_read = False\<rparr>],
      createdAt = ''2024-01-01T00:00:00.000Z'',
      lastMessageAt = Some ''2024-01-01T00:00:00.002Z''\<rparr>"

definition shared_id :: "request list" where
  "shared_id = [text_from_to ''a_b'' ''c'' ''hi'' ''1'', text_from_to ''b_c'' ''a'' ''yo'' ''2'']"

text \<open>
  A roster for the wallet \<^verbatim>\<open>0xAa\<close>: a running tournament with \<^verbatim>\<open>0xBb\<close>, a finished one
  with \<^verbatim>\<open>0xCC\<close>, a game without tournaments, a tournament without participants, and a
  tournament without status with \<^verbatim>\<open>0xBB\<close> again and \<^verbatim>\<open>0xDD\<close>. The response for that
  wallet after \<^verbatim>\<open>0xbb\<close> has sent it one message.
\<close>

definition example_games :: "game list" where
  "example_games =
     [\<lparr>tournaments = Some
         [\<lparr>t_participants = Some
              [\<lparr>walletAddress = ''0xAA'', platformUsername = JString ''alice'', gamertags = JUndefined\<rparr>,
               \<lparr>walletAddress = ''0xBb'', platformUsername = JString ''bob'',
                 gamertags = JObject [(''psn'', JString ''bob_1'')]\<rparr>],
            status = Some ''active''\<rparr>,
          \<lparr>t_participants = Some
              [\<lparr>walletAddress = ''0xaa'', platformUsername = JString ''alice'', gamertags = JUndefined\<rparr>,
               \<lparr>walletAddress = ''0xCC'', platformUsername = JString ''carol'', gamertags = JUndefined\<rparr>],
            status = Some ''finished''\<rparr>]\<rparr>,
      \<lparr>tournaments = None\<rparr>,
      \<lparr>tournaments = Some
         [\<lparr>t_participants = None, status = Some ''active''\<rparr>,
          \<lparr>t_participants = Some
              [\<lparr>walletAddress = ''0xBB'', platformUsername = JString ''bobby'', gamertags = JUndefined\<rparr>,
               \<lparr>walletAddress = ''0xDD'', platformUsername = JUndefined, gamertags = JUndefined\<rparr>,
               \<lparr>walletAddress = ''0xaA'', platformUsername = JString ''alice'', gamertags = JUndefined\<rparr>],
            status = None\<rparr>]\<rparr>]"


section \<open>Conversation ids\<close>

lemma toLowerCase_unit_idem: "toLowerCase_unit (toLowerCase_unit c) = toLowerCase_unit c"
  by (simp add: toLowerCase_unit_def Let_def)

lemma toLowerCase_idem: "toLowerCase (toLowerCase s) = toLowerCase s"
  by (simp add: toLowerCase_def toLowerCase_unit_idem)

lemma getConversationId_eq:
  "getConversationId a b =
     (if toLowerCase a \<le> toLowerCase b then toLowerCase a @ ''_'' @ toLowerCase b
      else toLowerCase b @ ''_'' @ toLowerCase a)"
  by (simp add: getConversationId_def)

lemma getConversationId_commute: "getConversationId a b = getConversationId b a"
  by (auto simp: getConversationId_eq)

text \<open>
  C1. The conversation id does not depend on the order of the two wallets, and it does not
  change when the wallets are replaced by their lower-case forms; so two pairs of wallets
  that differ only in the case of their characters have the same id.
\<close>

theorem getConversationId_symmetric_case_invariant:
  "getConversationId a b = getConversationId b a \<and>
   getConversationId a b = getConversationId (toLowerCase a) (toLowerCase b) \<and>
   (toLowerCase a = toLowerCase a' \<and> toLowerCase b = toLowerCase b' \<longrightarrow>
      getConversationId a b = getConversationId a' b')"
  by (auto simp: getConversationId_eq toLowerCase_idem)

theorem getConversationId_symmetric_case_invariant_witness:
  "toLowerCase ''0xAB'' = toLowerCase ''0xab'' \<and> toLowerCase ''0xcd'' = toLowerCase ''0xCD'' \<and>
   getConversationId ''0xAB'' ''0xcd'' = getConversationId ''0xab'' ''0xCD'' \<and>
   getConversationId ''0xab'' ''0xCD'' = ''0xab_0xcd''"
proof -
  have same: "toLowerCase ''0xAB'' = toLowerCase ''0xab'' \<and>
      toLowerCase ''0xcd'' = toLowerCase ''0xCD''"
    by code_simp
  have id: "getConversationId ''0xab'' ''0xCD'' = ''0xab_0xcd''"
    by code_simp
  from getConversationId_symmetric_case_invariant [of "''0xAB''" "''0xcd''" "''0xab''" "''0xCD''"]
  have "toLowerCase ''0xAB'' = toLowerCase ''0xab'' \<and> toLowerCase ''0xcd'' = toLowerCase ''0xCD'' \<longrightarrow>
      getConversationId ''0xAB'' ''0xcd'' = getConversationId ''0xab'' ''0xCD''"
    by (elim conjE)
  with same have "getConversationId ''0xAB'' ''0xcd'' = getConversationId ''0xab'' ''0xCD''"
    by (rule rev_mp)
  with same id show ?thesis
    by (intro conjI) (elim conjE, assumption)+
qed

section \<open>Reading and writing the file\<close>

lemma stored_writeMessages: "stored (writeMessages data d) = data"
  by (simp add: stored_def readMessages_def writeMessages_def)

lemma writes_writeMessages: "writes (writeMessages data d) = Suc (writes d)"
  by (simp add: writeMessages_def)

lemma file_writeMessages: "messages_file (writeMessages data d) = Some data"
  by (simp add: writeMessages_def)

lemma stored_readMessages: "stored (snd (readMessages d)) = stored d"
  by (simp add: stored_def readMessages_def writeMessages_def split: option.splits)

lemma readMessages_stored: "readMessages d = (stored d, snd (readMessages d))"
  by (simp add: stored_def)

lemma file_readMessages: "messages_file (snd (readMessages d)) = Some (stored d)"
  by (simp add: stored_def readMessages_def writeMessages_def split: option.splits)

lemma readMessages_twice: "snd (readMessages (snd (readMessages d))) = snd (readMessages d)"
  by (simp add: readMessages_def writeMessages_def split: option.splits)

section \<open>Validation of a send\<close>

text \<open>
  C6. When \<open>from\<close>, \<open>to\<close> or \<open>message\<close> is empty or missing, the send is answered 400 and
  the disk is as it was: the file is not even read, no conversation is created and no
  message is appended.
\<close>

theorem chat_send_invalid:
  "\<not> truthy from \<or> \<not> truthy to \<or> \<not> truthy message \<Longrightarrow>
   chat_send from to message messageType env d = (Inl BadRequest, d)"
  by (simp add: chat_send_def)

theorem chat_send_invalid_witness:
  "\<not> truthy (Some '''') \<and>
   chat_send (Some '''') (Some ''B'') (Some ''x'') None (env_at ''1'') first_start =
     (Inl BadRequest, first_start)"
  using chat_send_invalid [of "Some ''''" "Some ''B''" "Some ''x''" None "env_at ''1''" first_start]
  by (simp add: truthy_def)

section \<open>Fetching a conversation\<close>

lemma chat_conversation_found:
  assumes "map_of (stored d) (getConversationId wallet1 wallet2) = Some c"
  shows "chat_conversation wallet1 wallet2 d =
     (\<lparr>r_conversationId = getConversationId wallet1 wallet2,
       r_messages = map (mark_read wallet1) (messages c),
       r_participants = Some (participants c)\<rparr>,
      writeMessages (AList.update (getConversationId wallet1 wallet2)
         (c\<lparr>messages := map (mark_read wallet1) (messages c)\<rparr>) (stored d)) (snd (readMessages d)))"
  using assms
  by (simp add: chat_conversation_def conversations_get_def stored_def split_beta Let_def)

lemma chat_conversation_not_found:
  assumes "map_of (stored d) (getConversationId wallet1 wallet2) = None"
  shows "chat_conversation wallet1 wallet2 d =
     (\<lparr>r_conversationId = getConversationId wallet1 wallet2, r_messages = [],
       r_participants = (if getConversationId wallet1 wallet2 = ''__proto__'' then None
                         else Some [toLowerCase wallet1, toLowerCase wallet2])\<rparr>,
      snd (readMessages d))"
  using assms
  by (simp add: chat_conversation_def conversations_get_def stored_def split_beta Let_def)

text \<open>
  When no conversation is stored under the id and the id is not \<^verbatim>\<open>__proto__\<close>, the thread
  of the response is empty, its participants are the two wallets in lower case, and the
  handler writes nothing after it has read the file.
\<close>

lemma chat_conversation_absent:
  assumes "map_of (stored d) (getConversationId wallet1 wallet2) = None"
    and "getConversationId wallet1 wallet2 \<noteq> ''__proto__''"
  shows "chat_conversation wallet1 wallet2 d =
     (\<lparr>r_conversationId = getConversationId wallet1 wallet2, r_messages = [],
       r_participants = Some [toLowerCase wallet1, toLowerCase wallet2]\<rparr>, snd (readMessages d))"
  using assms by (simp add: chat_conversation_not_found)

text \<open>
  C7. The wallets \<^verbatim>\<open>_\<close> and \<^verbatim>\<open>proto__\<close> have the conversation id \<^verbatim>\<open>__proto__\<close>. On an
  empty store no conversation exists under it, and the response has an empty thread but no
  participants: the lookup has found the prototype object, not \<^verbatim>\<open>undefined\<close>. Nothing is
  written.
\<close>

theorem chat_conversation_proto:
  "map_of ([] :: conversations) (getConversationId ''_'' ''proto__'') = None \<and>
   chat_conversation ''_'' ''proto__'' \<lparr>messages_file = Some [], writes = 0\<rparr> =
     (\<lparr>r_conversationId = ''__proto__'', r_messages = [], r_participants = None\<rparr>,
      \<lparr>messages_file = Some [], writes = 0\<rparr>)"
  by code_simp

lemma mark_read_idem: "mark_read w (mark_read w msg) = mark_read w msg"
  by (simp add: mark_read_def)

lemma mark_read_comp: "mark_read w \<circ> mark_read w = mark_read w"
  by (simp add: fun_eq_iff mark_read_idem)

text \<open>
  C5, as the code has it. Fetching a conversation writes the store exactly when a
  conversation is stored under the id, whether or not a flag changes. Fetching it a second
  time gives the same response and leaves the content of the file as the first fetch left
  it.
\<close>

theorem chat_conversation_writes_idempotent:
  "writes (snd (chat_conversation wallet1 wallet2 d)) =
     (case map_of (stored d) (getConversationId wallet1 wallet2) of
        None \<Rightarrow> writes (snd (readMessages d))
      | Some c \<Rightarrow> Suc (writes (snd (readMessages d)))) \<and>
   fst (chat_conversation wallet1 wallet2 (snd (chat_conversation wallet1 wallet2 d))) =
     fst (chat_conversation wallet1 wallet2 d) \<and>
   messages_file (snd (chat_conversation wallet1 wallet2 (snd (chat_conversation wallet1 wallet2 d)))) =
     messages_file (snd (chat_conversation wallet1 wallet2 d))"
proof (cases "map_of (stored d) (getConversationId wallet1 wallet2)")
  case None
  let ?d1 = "snd (readMessages d)"
  have first: "chat_conversation wallet1 wallet2 d =
     (\<lparr>r_conversationId = getConversationId wallet1 wallet2, r_messages = [],
       r_participants = (if getConversationId wallet1 wallet2 = ''__proto__'' then None
                         else Some [toLowerCase wallet1, toLowerCase wallet2])\<rparr>, ?d1)"
    using None by (rule chat_conversation_not_found)
  have "map_of (stored ?d1) (getConversationId wallet1 wallet2) = None"
    using None by (simp add: stored_readMessages)
  then have second: "chat_conversation wallet1 wallet2 ?d1 =
     (\<lparr>r_conversationId = getConversationId wallet1 wallet2, r_messages = [],
       r_participants = (if getConversationId wallet1 wallet2 = ''__proto__'' then None
                         else Some [toLowerCase wallet1, toLowerCase wallet2])\<rparr>,
      snd (readMessages ?d1))"
    by (rule chat_conversation_not_found)
  show ?thesis
    using None by (simp add: first second readMessages_twice)
next
  case (Some c)
  let ?k = "getConversationId wallet1 wallet2"
  let ?c' = "c\<lparr>messages := map (mark_read wallet1) (messages c)\<rparr>"
  let ?d1 = "writeMessages (AList.update ?k ?c' (stored d)) (snd (readMessages d))"
  have first: "chat_conversation wallet1 wallet2 d =
     (\<lparr>r_conversationId = ?k, r_messages = map (mark_read wallet1) (messages c),
       r_participants = Some (participants c)\<rparr>, ?d1)"
    using Some by (rule chat_conversation_found)
  have "map_of (stored ?d1) ?k = Some ?c'"
    by (simp add: stored_writeMessages update_conv')
  then have second: "chat_conversation wallet1 wallet2 ?d1 =
     (\<lparr>r_conversationId = ?k, r_messages = map (mark_read wallet1) (messages ?c'),
       r_participants = Some (participants ?c')\<rparr>,
      writeMessages
        (AList.update ?k (?c'\<lparr>messages := map (mark_read wallet1) (messages ?c')\<rparr>) (stored ?d1))
        (snd (readMessages ?d1)))"
    by (rule chat_conversation_found)
  show ?thesis
    using Some
    by (simp add: first second mark_read_comp stored_writeMessages writes_writeMessages
        file_writeMessages)
qed

text \<open>
  C5, as the specification states it, fails: after \<^verbatim>\<open>a\<close> has sent one message to \<^verbatim>\<open>b\<close>, the fetch
  of the conversation by \<^verbatim>\<open>a\<close> changes no flag (the file has the same content) and writes
  the file.
\<close>

theorem chat_conversation_redundant_write:
  "messages_file (snd (chat_conversation ''a'' ''b'' (run [text_from_to ''a'' ''b'' ''hi'' ''1''] first_start))) =
     messages_file (run [text_from_to ''a'' ''b'' ''hi'' ''1''] first_start) \<and>
   writes (snd (chat_conversation ''a'' ''b'' (run [text_from_to ''a'' ''b'' ''hi'' ''1''] first_start))) =
     Suc (writes (run [text_from_to ''a'' ''b'' ''hi'' ''1''] first_start))"
  by code_simp

section \<open>Threads and their history\<close>

lemma slice_last_short: "length xs \<le> n \<Longrightarrow> slice_last n xs = xs"
  by (simp add: slice_last_def)

lemma length_slice_last: "length (slice_last n xs) = min n (length xs)"
  by (simp add: slice_last_def)

lemma slice_last_append: "slice_last n (slice_last n xs @ ys) = slice_last n (xs @ ys)"
proof (cases "n \<le> length xs")
  case True
  then show ?thesis by (simp add: slice_last_def add.commute)
next
  case False
  then show ?thesis by (simp add: slice_last_def)
qed


lemma push_keep3_eq: "push_keep3 msgs msg = slice_last 3 (msgs @ [msg])"
  by (simp add: push_keep3_def Let_def slice_last_def)

lemma stored_chat_unread: "stored (snd (chat_unread wallet d)) = stored d"
  by (simp add: chat_unread_def split_beta Let_def stored_readMessages)

lemma stored_chat_available_users: "stored (snd (chat_available_users wallet g d)) = stored d"
  by (cases g) (simp_all add: chat_available_users_def split_beta Let_def stored_readMessages)

lemma thread_stored: "stored d' = stored d \<Longrightarrow> thread d' k = thread d k"
  by (simp add: thread_def)

lemma thread_update:
  "stored d' = AList.update j c (stored d) \<Longrightarrow>
   thread d' k = (if k = j then messages c else thread d k)"
  by (simp add: thread_def update_conv')

lemma stored_chat_conversation:
  "stored (snd (chat_conversation wallet1 wallet2 d)) =
     (case map_of (stored d) (getConversationId wallet1 wallet2) of
        None \<Rightarrow> stored d
      | Some c \<Rightarrow> AList.update (getConversationId wallet1 wallet2)
                    (c\<lparr>messages := map (mark_read wallet1) (messages c)\<rparr>) (stored d))"
  by (simp add: chat_conversation_found chat_conversation_not_found stored_writeMessages
      stored_readMessages split: option.splits)

lemma thread_chat_conversation:
  "thread (snd (chat_conversation wallet1 wallet2 d)) k =
     (if k = getConversationId wallet1 wallet2 then map (mark_read wallet1) (thread d k)
      else thread d k)"
proof (cases "map_of (stored d) (getConversationId wallet1 wallet2)")
  case None
  then have "stored (snd (chat_conversation wallet1 wallet2 d)) = stored d"
    by (simp add: stored_chat_conversation)
  then have "thread (snd (chat_conversation wallet1 wallet2 d)) k = thread d k"
    by (rule thread_stored)
  moreover have "thread d (getConversationId wallet1 wallet2) = []"
    using None by (simp add: thread_def)
  ultimately show ?thesis by simp
next
  case (Some c)
  then have "stored (snd (chat_conversation wallet1 wallet2 d)) =
      AList.update (getConversationId wallet1 wallet2)
        (c\<lparr>messages := map (mark_read wallet1) (messages c)\<rparr>) (stored d)"
    by (simp add: stored_chat_conversation)
  then have "thread (snd (chat_conversation wallet1 wallet2 d)) k =
      (if k = getConversationId wallet1 wallet2
       then messages (c\<lparr>messages := map (mark_read wallet1) (messages c)\<rparr>) else thread d k)"
    by (rule thread_update)
  moreover have "thread d (getConversationId wallet1 wallet2) = messages c"
    using Some by (simp add: thread_def)
  ultimately show ?thesis by simp
qed

text \<open>A send with three non-empty fields, by the result of the lookup.\<close>

lemma send_valid_eq:
  "send_valid from to message messageType env d =
     (case conversations_get (stored d) (getConversationId from to) of
        ObjectPrototype \<Rightarrow> (Inl InternalServerError, snd (readMessages d))
      | Undefined \<Rightarrow>
          (Inr (newMessage from to message messageType env),
           writeMessages (AList.update (getConversationId from to)
             (push_message (created_conversation from to env)
                (newMessage from to message messageType env) env) (stored d)) (snd (readMessages d)))
      | Conversation c \<Rightarrow>
          (Inr (newMessage from to message messageType env),
           writeMessages (AList.update (getConversationId from to)
             (push_message c (newMessage from to message messageType env) env) (stored d))
             (snd (readMessages d))))"
  by (simp add: send_valid_def stored_def split_beta Let_def split: property.splits)

lemma chat_send_eq:
  "chat_send from to message messageType env d =
     (case (from, to, message) of
        (Some f, Some t, Some m) \<Rightarrow>
          if f = [] \<or> t = [] \<or> m = [] then (Inl BadRequest, d)
          else send_valid f t m messageType env d
      | _ \<Rightarrow> (Inl BadRequest, d))"
  by (simp add: chat_send_def truthy_def split: option.splits)

text \<open>What a send does to a thread.\<close>

lemma thread_send_valid:
  "thread (snd (send_valid from to message messageType env d)) k =
     (case fst (send_valid from to message messageType env d) of
        Inl e \<Rightarrow> thread d k
      | Inr msg \<Rightarrow> if k = getConversationId from to then slice_last 3 (thread d k @ [msg])
                   else thread d k)"
proof (cases "conversations_get (stored d) (getConversationId from to)")
  case Undefined
  then have absent: "map_of (stored d) (getConversationId from to) = None"
    by (simp add: conversations_get_def split: option.splits)
  have "stored (snd (send_valid from to message messageType env d)) =
      AList.update (getConversationId from to)
        (push_message (created_conversation from to env)
           (newMessage from to message messageType env) env) (stored d)"
    using Undefined by (simp add: send_valid_eq stored_writeMessages)
  from thread_update [OF this, of k] absent Undefined show ?thesis
    by (simp add: send_valid_eq push_message_def push_keep3_eq created_conversation_def thread_def)
next
  case ObjectPrototype
  then show ?thesis
    by (simp add: send_valid_eq thread_stored [OF stored_readMessages])
next
  case (Conversation c)
  then have present: "map_of (stored d) (getConversationId from to) = Some c"
    by (simp add: conversations_get_def split: option.splits if_splits)
  have "stored (snd (send_valid from to message messageType env d)) =
      AList.update (getConversationId from to)
        (push_message c (newMessage from to message messageType env) env) (stored d)"
    using Conversation by (simp add: send_valid_eq stored_writeMessages)
  from thread_update [OF this, of k] present Conversation show ?thesis
    by (simp add: send_valid_eq push_message_def push_keep3_eq thread_def)
qed

lemma appends_Send:
  "appends (Send from to message messageType env) d k =
     (case (from, to, message) of
        (Some f, Some t, Some m) \<Rightarrow>
          if f = [] \<or> t = [] \<or> m = [] then []
          else (case fst (send_valid f t m messageType env d) of
                  Inl e \<Rightarrow> []
                | Inr msg \<Rightarrow> if getConversationId f t = k then [msg] else [])
      | _ \<Rightarrow> [])"
  by (cases "from"; cases "to"; cases message) (simp_all add: chat_send_eq)

lemma thread_handle_appends:
  "thread (handle r d) k =
     (case r of
        GetConversation wallet1 wallet2 \<Rightarrow>
          if k = getConversationId wallet1 wallet2 then map (mark_read wallet1) (thread d k)
          else thread d k
      | _ \<Rightarrow> if appends r d k = [] then thread d k else slice_last 3 (thread d k @ appends r d k))"
proof (cases r)
  case (AvailableUsers w g)
  then show ?thesis by (simp add: thread_stored [OF stored_chat_available_users])
next
  case (GetConversation w1 w2)
  then show ?thesis by (simp add: thread_chat_conversation)
next
  case (Send f t m mt env)
  show ?thesis
    unfolding Send
    by (cases f; cases t; cases m)
      (auto simp: chat_send_eq thread_send_valid split: sum.splits)
next
  case (Unread w)
  then show ?thesis by (simp add: thread_stored [OF stored_chat_unread])
qed

lemma kept_refl: "kept msg msg"
  by (simp add: kept_def)

lemma kept_trans: "kept a b \<Longrightarrow> kept b c \<Longrightarrow> kept a c"
  by (auto simp: kept_def) (metis message.surjective message.update_convs(7))

lemma kept_mark_read: "kept msg (mark_read w msg)"
  by (simp add: kept_def mark_read_def)

lemma kept_unread_copy: "kept a b \<Longrightarrow> unread_copy b = unread_copy a"
  by (auto simp: kept_def unread_copy_def) (metis message.update_convs(7) message.surjective)

lemma list_all2_kept_refl: "list_all2 kept xs xs"
  by (simp add: list_all2_refl kept_refl)

lemma list_all2_kept_mark: "list_all2 kept xs (map (mark_read w) xs)"
  by (simp add: list_all2_map2 list_all2_refl kept_mark_read)

lemma list_all2_kept_trans:
  "list_all2 kept xs ys \<Longrightarrow> list_all2 kept ys zs \<Longrightarrow> list_all2 kept xs zs"
  by (rule list_all2_trans [of kept kept kept]) (auto intro: kept_trans)

lemma list_all2_kept_unread_copy:
  "list_all2 kept xs ys \<Longrightarrow> map unread_copy ys = map unread_copy xs"
  by (induction xs ys rule: list_all2_induct) (simp_all add: kept_unread_copy)

lemma handle_kept:
  "list_all2 kept
     (if appends r d k = [] then thread d k else slice_last 3 (thread d k @ appends r d k))
     (thread (handle r d) k)"
  unfolding thread_handle_appends [of r d k]
  by (cases r) (simp_all add: list_all2_kept_refl list_all2_kept_mark)

lemma list_all2_kept_slice_last_append:
  assumes "list_all2 kept xs ys"
  shows "list_all2 kept (slice_last n (xs @ zs)) (slice_last n (ys @ zs))"
proof -
  have both: "list_all2 kept (xs @ zs) (ys @ zs)"
    using assms by (rule list_all2_appendI) (rule list_all2_kept_refl)
  have "length xs = length ys"
    using assms by (rule list_all2_lengthD)
  then have "slice_last n (ys @ zs) = drop (length (xs @ zs) - n) (ys @ zs)"
    by (simp add: slice_last_def)
  moreover have "list_all2 kept (drop (length (xs @ zs) - n) (xs @ zs))
      (drop (length (xs @ zs) - n) (ys @ zs))"
    using both by (rule list_all2_dropI)
  ultimately show ?thesis
    by (simp only: slice_last_def)
qed

lemma list_all2_kept_drop_append:
  assumes "list_all2 kept (drop m xs) ys" and "m \<le> length xs"
  shows "list_all2 kept (drop m (xs @ zs)) (ys @ zs)"
proof -
  have "list_all2 kept (drop m xs @ zs) (ys @ zs)"
    using assms(1) by (rule list_all2_appendI) (rule list_all2_kept_refl)
  moreover have "drop m (xs @ zs) = drop m xs @ zs"
    using assms(2) by simp
  ultimately show ?thesis by simp
qed

lemma send_valid_unread:
  "fst (send_valid f t m mt env d) = Inr msg \<Longrightarrow> unread_copy msg = msg"
  by (auto simp: send_valid_eq newMessage_def unread_copy_def split: property.splits)

lemma appends_unread: "map unread_copy (appends r d k) = appends r d k"
proof (cases r)
  case (Send f t m mt env)
  show ?thesis
    unfolding Send
    by (cases f; cases t; cases m) (auto simp: appends_Send send_valid_unread split: sum.splits)
qed simp_all

lemma appended_unread: "map unread_copy (appended reqs d k) = appended reqs d k"
  by (induction reqs arbitrary: d) (simp_all add: appends_unread)

lemma run_Cons: "run (r # rs) d = run rs (handle r d)"
  by (simp add: run_def)

lemma run_Nil: "run [] d = d"
  by (simp add: run_def)

text \<open>A thread of at most three messages holds the last three of its history.\<close>

lemma run_kept_last3:
  "length (thread d k) \<le> 3 \<Longrightarrow>
   list_all2 kept (slice_last 3 (thread d k @ appended reqs d k)) (thread (run reqs d) k)"
proof (induction reqs arbitrary: d)
  case Nil
  then show ?case by (simp add: run_Nil slice_last_short list_all2_kept_refl)
next
  case (Cons r rs)
  let ?T = "thread d k" and ?a = "appends r d k" and ?T1 = "thread (handle r d) k"
  let ?A = "appended rs (handle r d) k"
  have short: "(if ?a = [] then ?T else slice_last 3 (?T @ ?a)) = slice_last 3 (?T @ ?a)"
    using Cons.prems by (simp add: slice_last_short)
  have step: "list_all2 kept (slice_last 3 (?T @ ?a)) ?T1"
    using handle_kept [of r d k] by (simp only: short)
  then have "length ?T1 = length (slice_last 3 (?T @ ?a))"
    by (simp add: list_all2_lengthD)
  then have bounded: "length ?T1 \<le> 3"
    by (simp add: length_slice_last)
  have "list_all2 kept (slice_last 3 (slice_last 3 (?T @ ?a) @ ?A)) (slice_last 3 (?T1 @ ?A))"
    using step by (rule list_all2_kept_slice_last_append)
  then have "list_all2 kept (slice_last 3 (?T @ ?a @ ?A)) (slice_last 3 (?T1 @ ?A))"
    by (simp add: slice_last_append)
  moreover have "list_all2 kept (slice_last 3 (?T1 @ ?A)) (thread (run rs (handle r d)) k)"
    using bounded by (rule Cons.IH)
  ultimately show ?case
    by (simp add: run_Cons list_all2_kept_trans)
qed

lemma thread_first_start: "thread first_start k = []"
  by (simp add: thread_def stored_def readMessages_def first_start_def)

lemma thread_last3_appended:
  "map unread_copy (thread (run reqs first_start) k) = slice_last 3 (appended reqs first_start k)"
proof -
  have "list_all2 kept (slice_last 3 (appended reqs first_start k)) (thread (run reqs first_start) k)"
    using run_kept_last3 [of first_start k reqs] by (simp add: thread_first_start)
  then have "map unread_copy (thread (run reqs first_start) k) =
      map unread_copy (slice_last 3 (appended reqs first_start k))"
    by (rule list_all2_kept_unread_copy)
  also have "\<dots> = slice_last 3 (map unread_copy (appended reqs first_start k))"
    by (simp add: slice_last_def drop_map)
  finally show ?thesis by (simp add: appended_unread)
qed

text \<open>
  C4. After any sequence of requests on any disk, the thread of a conversation is, message
  by message, a final part of its history (the thread before the requests, followed by the
  messages appended since, in the order of appending): every message of the thread has the
  fields of the message of the history at its place, but for \<open>read\<close>, which is true when it
  was true. So no request changes a field other than \<open>read\<close> of a stored message, or
  takes a \<open>read\<close> flag back.
\<close>

theorem messages_immutable_but_read:
  "\<exists>n. list_all2 kept (drop n (thread d k @ appended reqs d k)) (thread (run reqs d) k)"
proof (induction reqs arbitrary: d)
  case Nil
  have "list_all2 kept (drop 0 (thread d k @ appended [] d k)) (thread (run [] d) k)"
    by (simp add: run_Nil list_all2_kept_refl)
  then show ?case by blast
next
  case (Cons r rs)
  let ?T = "thread d k" and ?a = "appends r d k" and ?T1 = "thread (handle r d) k"
  let ?A = "appended rs (handle r d) k"
  obtain m where m: "m \<le> length (?T @ ?a)" and step: "list_all2 kept (drop m (?T @ ?a)) ?T1"
  proof (cases "?a = []")
    case True
    then have "list_all2 kept (drop 0 (?T @ ?a)) ?T1"
      using handle_kept [of r d k] by simp
    then show ?thesis using that [of 0] by simp
  next
    case False
    then have "list_all2 kept (drop (length (?T @ ?a) - 3) (?T @ ?a)) ?T1"
      using handle_kept [of r d k] by (simp add: slice_last_def)
    then show ?thesis using that [of "length (?T @ ?a) - 3"] by simp
  qed
  obtain n where n: "list_all2 kept (drop n (?T1 @ ?A)) (thread (run rs (handle r d)) k)"
    using Cons.IH [of "handle r d"] by blast
  have "list_all2 kept (drop m ((?T @ ?a) @ ?A)) (?T1 @ ?A)"
    using step m by (rule list_all2_kept_drop_append)
  then have "list_all2 kept (drop m (?T @ ?a @ ?A)) (?T1 @ ?A)"
    by (simp only: append_assoc)
  then have "list_all2 kept (drop n (drop m (?T @ ?a @ ?A))) (drop n (?T1 @ ?A))"
    by (rule list_all2_dropI)
  then have "list_all2 kept (drop n (drop m (?T @ ?a @ ?A))) (thread (run rs (handle r d)) k)"
    using n by (rule list_all2_kept_trans)
  then have "list_all2 kept (drop (n + m) (thread d k @ appended (r # rs) d k))
      (thread (run (r # rs) d) k)"
    by (simp only: drop_drop run_Cons appended.simps)
  then show ?case ..
qed

theorem messages_immutable_but_read_witness:
  "(\<exists>n. list_all2 kept
          (drop n (thread first_start ''a_b'' @ appended sent_and_fetched first_start ''a_b''))
          (thread (run sent_and_fetched first_start) ''a_b'')) \<and>
   map m_read (appended sent_and_fetched first_start ''a_b'') = [False] \<and>
   map m_read (thread (run sent_and_fetched first_start) ''a_b'') = [True]"
proof -
  have flags: "map m_read (appended sent_and_fetched first_start ''a_b'') = [False] \<and>
      map m_read (thread (run sent_and_fetched first_start) ''a_b'') = [True]"
    by code_simp
  show ?thesis
    using messages_immutable_but_read [of first_start "''a_b''" sent_and_fetched] flags by simp
qed

section \<open>Invariants of the store\<close>

text \<open>
  A property of conversations that holds for a created conversation and is kept by marking
  and by pushing a message holds for every conversation of the store after every request.
\<close>

lemma list_all_update:
  "list_all P (map snd s) \<Longrightarrow> P c \<Longrightarrow> list_all P (map snd (AList.update k c s))"
  by (induction s) auto

lemma list_all_map_of:
  "list_all P (map snd s) \<Longrightarrow> map_of s k = Some c \<Longrightarrow> P c"
  by (induction s) (auto split: if_splits)

lemma stored_first_start: "stored first_start = []"
  by (simp add: stored_def readMessages_def first_start_def)

lemma send_valid_invariant:
  assumes created: "\<And>f t env. P (created_conversation f t env)"
    and pushed: "\<And>c f t m mt env. P c \<Longrightarrow> P (push_message c (newMessage f t m mt env) env)"
    and inv: "list_all P (map snd (stored d))"
  shows "list_all P (map snd (stored (snd (send_valid f t m mt env d))))"
proof (cases "conversations_get (stored d) (getConversationId f t)")
  case Undefined
  have "P (push_message (created_conversation f t env) (newMessage f t m mt env) env)"
    by (rule pushed) (rule created)
  then show ?thesis
    using inv Undefined by (simp add: send_valid_eq stored_writeMessages list_all_update)
next
  case ObjectPrototype
  then show ?thesis
    using inv by (simp add: send_valid_eq stored_readMessages)
next
  case (Conversation c)
  then have "map_of (stored d) (getConversationId f t) = Some c"
    by (simp add: conversations_get_def split: option.splits if_splits)
  with inv have "P c"
    by (rule list_all_map_of)
  then have "P (push_message c (newMessage f t m mt env) env)"
    by (rule pushed)
  then show ?thesis
    using inv Conversation by (simp add: send_valid_eq stored_writeMessages list_all_update)
qed

lemma handle_invariant:
  assumes created: "\<And>f t env. P (created_conversation f t env)"
    and marked: "\<And>c w. P c \<Longrightarrow> P (c\<lparr>messages := map (mark_read w) (messages c)\<rparr>)"
    and pushed: "\<And>c f t m mt env. P c \<Longrightarrow> P (push_message c (newMessage f t m mt env) env)"
    and inv: "list_all P (map snd (stored d))"
  shows "list_all P (map snd (stored (handle r d)))"
proof (cases r)
  case (AvailableUsers w g)
  then show ?thesis using inv by (simp add: stored_chat_available_users)
next
  case (GetConversation w1 w2)
  show ?thesis
  proof (cases "map_of (stored d) (getConversationId w1 w2)")
    case None
    then show ?thesis using inv GetConversation by (simp add: stored_chat_conversation)
  next
    case (Some c)
    with inv have "P c" by (rule list_all_map_of)
    then have "P (c\<lparr>messages := map (mark_read w1) (messages c)\<rparr>)" by (rule marked)
    then show ?thesis
      using inv GetConversation Some by (simp add: stored_chat_conversation list_all_update)
  qed
next
  case (Send f t m mt env)
  have valid: "list_all P (map snd (stored (snd (send_valid f' t' m' mt env d))))" for f' t' m'
    using created pushed inv by (rule send_valid_invariant)
  show ?thesis
    unfolding Send using inv
    by (cases f; cases t; cases m) (simp_all add: chat_send_eq valid)
next
  case (Unread w)
  then show ?thesis using inv by (simp add: stored_chat_unread)
qed

lemma run_invariant:
  assumes created: "\<And>f t env. P (created_conversation f t env)"
    and marked: "\<And>c w. P c \<Longrightarrow> P (c\<lparr>messages := map (mark_read w) (messages c)\<rparr>)"
    and pushed: "\<And>c f t m mt env. P c \<Longrightarrow> P (push_message c (newMessage f t m mt env) env)"
  shows "list_all P (map snd (stored d)) \<Longrightarrow> list_all P (map snd (stored (run reqs d)))"
proof (induction reqs arbitrary: d)
  case Nil
  then show ?case by (simp add: run_Nil)
next
  case (Cons r rs)
  have "list_all P (map snd (stored (handle r d)))"
    using created marked pushed Cons.prems by (rule handle_invariant)
  then have "list_all P (map snd (stored (run rs (handle r d))))"
    by (rule Cons.IH)
  then show ?case by (simp add: run_Cons)
qed

lemma bounded_run:
  "list_all (\<lambda>c. length (messages c) \<le> 3) (map snd (stored (run reqs first_start)))"
proof (rule run_invariant)
  show "length (messages (created_conversation f t env)) \<le> 3" for f t env
    by (simp add: created_conversation_def)
  show "length (messages (c\<lparr>messages := map (mark_read w) (messages c)\<rparr>)) \<le> 3"
    if "length (messages c) \<le> 3" for c w
    using that by simp
  show "length (messages (push_message c (newMessage f t m mt env) env)) \<le> 3" for c f t m mt env
    by (simp add: push_message_def push_keep3_eq length_slice_last)
  show "list_all (\<lambda>c. length (messages c) \<le> 3) (map snd (stored first_start))"
    by (simp add: stored_first_start)
qed

text \<open>The keys of the store stay distinct: the list is an object.\<close>

lemma distinct_keys_handle:
  assumes "distinct (map fst (stored d))"
  shows "distinct (map fst (stored (handle r d)))"
proof (cases r)
  case (AvailableUsers w g)
  then show ?thesis using assms by (simp add: stored_chat_available_users)
next
  case (GetConversation w1 w2)
  then show ?thesis
    using assms by (simp add: stored_chat_conversation distinct_update split: option.splits)
next
  case (Send f t m mt env)
  have valid: "distinct (map fst (stored (snd (send_valid f' t' m' mt env d))))" for f' t' m'
    using assms
    by (simp add: send_valid_eq stored_writeMessages stored_readMessages distinct_update
        split: property.splits)
  show ?thesis
    unfolding Send using assms
    by (cases f; cases t; cases m) (simp_all add: chat_send_eq valid)
next
  case (Unread w)
  then show ?thesis using assms by (simp add: stored_chat_unread)
qed

lemma distinct_keys_run: "distinct (map fst (stored (run reqs first_start)))"
proof -
  have "distinct (map fst (stored d)) \<Longrightarrow> distinct (map fst (stored (run reqs d)))" for d
    by (induction reqs arbitrary: d) (simp_all add: run_Nil run_Cons distinct_keys_handle)
  then show ?thesis by (simp add: stored_first_start)
qed

text \<open>
  C2. After any sequence of requests on a server that starts without a file, every
  conversation of the store has at most three messages; and when more than three messages
  have been appended to a conversation, its thread has three messages, which are the last
  three appended, in the order of appending, up to the \<open>read\<close> flags that fetches have set
  since.
\<close>

theorem thread_keeps_last_three:
  "list_all (\<lambda>c. length (messages c) \<le> 3) (map snd (stored (run reqs first_start))) \<and>
   (3 < length (appended reqs first_start k) \<longrightarrow>
      length (thread (run reqs first_start) k) = 3 \<and>
      map unread_copy (thread (run reqs first_start) k) = slice_last 3 (appended reqs first_start k))"
proof -
  have "length (map unread_copy (thread (run reqs first_start) k)) =
      length (slice_last 3 (appended reqs first_start k))"
    by (simp only: thread_last3_appended)
  then have "length (thread (run reqs first_start) k) = min 3 (length (appended reqs first_start k))"
    by (simp add: length_slice_last)
  then show ?thesis
    by (simp add: thread_last3_appended bounded_run)
qed

theorem thread_keeps_last_three_witness:
  "3 < length (appended four_messages first_start ''a_b'') \<and>
   length (thread (run four_messages first_start) ''a_b'') = 3 \<and>
   map unread_copy (thread (run four_messages first_start) ''a_b'') =
     slice_last 3 (appended four_messages first_start ''a_b'') \<and>
   map m_message (slice_last 3 (appended four_messages first_start ''a_b'')) =
     [''yo'', ''sup'', ''again'']"
proof -
  have more: "3 < length (appended four_messages first_start ''a_b'')"
    by code_simp
  have bodies: "map m_message (slice_last 3 (appended four_messages first_start ''a_b'')) =
      [''yo'', ''sup'', ''again'']"
    by code_simp
  show ?thesis
    using thread_keeps_last_three [of four_messages "''a_b''"] more bodies by simp
qed

section \<open>Unread counts\<close>

lemma fold_unread:
  "fold (\<lambda>c total. if P c then total + f c else total) cs n =
     n + sum_list (map f (filter P cs))" for n :: nat
  by (induction cs arbitrary: n) simp_all

lemma chat_unread_eq: "fst (chat_unread wallet d) = spec_countFor (stored d) wallet"
  by (simp add: chat_unread_def spec_countFor_def unread_for_def stored_def split_beta Let_def
      fold_unread)

lemma spec_countFor_Cons:
  "spec_countFor ((k, c) # s) wallet =
     (if toLowerCase wallet \<in> set (participants c)
      then unread_for (toLowerCase wallet) (messages c) else 0) + spec_countFor s wallet"
  by (simp add: spec_countFor_def unread_for_def)

lemma spec_countFor_update:
  "map_of s k = Some X \<Longrightarrow>
   spec_countFor (AList.update k Y s) wallet +
     (if toLowerCase wallet \<in> set (participants X)
      then unread_for (toLowerCase wallet) (messages X) else 0) =
   spec_countFor s wallet +
     (if toLowerCase wallet \<in> set (participants Y)
      then unread_for (toLowerCase wallet) (messages Y) else 0)"
proof (induction s)
  case Nil
  then show ?case by simp
next
  case (Cons p s)
  obtain j c where p: "p = (j, c)" by (cases p)
  show ?case
  proof (cases "j = k")
    case True
    with Cons.prems p have "c = X" by simp
    with True p show ?thesis by (simp add: spec_countFor_Cons)
  next
    case False
    with Cons.prems p have "map_of s k = Some X" by simp
    from Cons.IH [OF this] False p show ?thesis by (simp add: spec_countFor_Cons)
  qed
qed

lemma unread_for_marked: "unread_for (toLowerCase w) (map (mark_read w) msgs) = 0"
  by (auto simp: unread_for_def mark_read_def toLowerCase_idem filter_empty_conv)

text \<open>
  C3, as the code has it. The unread count of a wallet is the sum, over the conversations
  that have its lower-case form among their participants, of the messages with \<open>to\<close> equal
  to that form and \<open>read\<close> false. When the wallet fetches a conversation that has its
  lower-case form among its participants, the count drops by exactly the number of such
  messages in that conversation.
\<close>

theorem unread_count_sum_and_drop:
  "fst (chat_unread w d) = spec_countFor (stored d) w \<and>
   (\<forall>X. map_of (stored d) (getConversationId w other) = Some X \<and>
        toLowerCase w \<in> set (participants X) \<longrightarrow>
        fst (chat_unread w d) =
          fst (chat_unread w (snd (chat_conversation w other d))) +
          unread_for (toLowerCase w) (messages X))"
proof (intro conjI allI impI)
  show "fst (chat_unread w d) = spec_countFor (stored d) w"
    by (rule chat_unread_eq)
next
  fix X
  assume X: "map_of (stored d) (getConversationId w other) = Some X \<and>
      toLowerCase w \<in> set (participants X)"
  let ?Y = "X\<lparr>messages := map (mark_read w) (messages X)\<rparr>"
  have after: "stored (snd (chat_conversation w other d)) =
      AList.update (getConversationId w other) ?Y (stored d)"
    using X by (simp add: stored_chat_conversation)
  have "spec_countFor (AList.update (getConversationId w other) ?Y (stored d)) w +
      (if toLowerCase w \<in> set (participants X)
       then unread_for (toLowerCase w) (messages X) else 0) =
    spec_countFor (stored d) w +
      (if toLowerCase w \<in> set (participants ?Y)
       then unread_for (toLowerCase w) (messages ?Y) else 0)"
    using X by (intro spec_countFor_update) simp
  then have "spec_countFor (stored d) w =
      spec_countFor (AList.update (getConversationId w other) ?Y (stored d)) w +
      unread_for (toLowerCase w) (messages X)"
    using X by (simp add: unread_for_marked)
  then show "fst (chat_unread w d) =
      fst (chat_unread w (snd (chat_conversation w other d))) +
      unread_for (toLowerCase w) (messages X)"
    by (simp add: chat_unread_eq after)
qed

theorem unread_count_sum_and_drop_witness:
  "map_of (stored (run [text_from_to ''A'' ''B'' ''hi'' ''1''] first_start))
     (getConversationId ''B'' ''A'') = Some hi_conversation \<and>
   toLowerCase ''B'' \<in> set (participants hi_conversation) \<and>
   unread_for (toLowerCase ''B'') (messages hi_conversation) = 1 \<and>
   fst (chat_unread ''B'' (run [text_from_to ''A'' ''B'' ''hi'' ''1''] first_start)) =
     fst (chat_unread ''B'' (snd (chat_conversation ''B'' ''A''
       (run [text_from_to ''A'' ''B'' ''hi'' ''1''] first_start)))) +
     unread_for (toLowerCase ''B'') (messages hi_conversation)"
proof -
  have found: "map_of (stored (run [text_from_to ''A'' ''B'' ''hi'' ''1''] first_start))
      (getConversationId ''B'' ''A'') = Some hi_conversation \<and>
    toLowerCase ''B'' \<in> set (participants hi_conversation)"
    by code_simp
  have one: "unread_for (toLowerCase ''B'') (messages hi_conversation) = 1"
    by code_simp
  from unread_count_sum_and_drop
    [of "''B''" "run [text_from_to ''A'' ''B'' ''hi'' ''1''] first_start" "''A''"]
  have "map_of (stored (run [text_from_to ''A'' ''B'' ''hi'' ''1''] first_start))
      (getConversationId ''B'' ''A'') = Some hi_conversation \<and>
    toLowerCase ''B'' \<in> set (participants hi_conversation) \<longrightarrow>
    fst (chat_unread ''B'' (run [text_from_to ''A'' ''B'' ''hi'' ''1''] first_start)) =
      fst (chat_unread ''B'' (snd (chat_conversation ''B'' ''A''
        (run [text_from_to ''A'' ''B'' ''hi'' ''1''] first_start)))) +
      unread_for (toLowerCase ''B'') (messages hi_conversation)"
    by blast
  with found one show ?thesis by blast
qed

text \<open>
  C3, as the specification states it, fails. The wallets \<^verbatim>\<open>a_b\<close> and \<^verbatim>\<open>c\<close> have the conversation
  id of \<^verbatim>\<open>b_c\<close> and \<^verbatim>\<open>a\<close>. After a message between the former and a message from
  \<^verbatim>\<open>b_c\<close> to \<^verbatim>\<open>a\<close>, the conversation has one unread message addressed to \<^verbatim>\<open>a\<close>, who
  is not among its participants: the unread count of \<^verbatim>\<open>a\<close> is 0 before \<^verbatim>\<open>a\<close> fetches
  the conversation and 0 after.
\<close>

theorem unread_count_no_drop_for_stranger:
  "unread_for ''a'' (thread (run shared_id first_start) (getConversationId ''a'' ''b_c'')) = 1 \<and>
   fst (chat_unread ''a'' (run shared_id first_start)) = 0 \<and>
   fst (chat_unread ''a'' (snd (chat_conversation ''a'' ''b_c'' (run shared_id first_start)))) = 0"
  by code_simp

section \<open>Lower-case wallets in the store\<close>



lemma lowercased_marked:
  "lowercased c \<Longrightarrow> lowercased (c\<lparr>messages := map (mark_read w) (messages c)\<rparr>)"
  by (auto simp: lowercased_def list_all_iff mark_read_def)

lemma lowercased_created: "lowercased (created_conversation f t env)"
  by (simp add: lowercased_def created_conversation_def toLowerCase_idem)

lemma list_all_slice_last: "list_all P xs \<Longrightarrow> list_all P (slice_last n xs)"
  by (auto simp: list_all_iff slice_last_def dest: in_set_dropD)

lemma lowercased_push:
  "lowercased c \<Longrightarrow> lowercased (push_message c (newMessage f t m mt env) env)"
  by (simp add: lowercased_def push_message_def push_keep3_eq newMessage_def toLowerCase_idem
      list_all_slice_last)

lemma lowercased_run:
  "list_all lowercased (map snd (stored (run reqs first_start)))"
proof (rule run_invariant)
  show "lowercased (created_conversation f t env)" for f t env
    by (rule lowercased_created)
  show "lowercased (c\<lparr>messages := map (mark_read w) (messages c)\<rparr>)" if "lowercased c" for c w
    using that by (rule lowercased_marked)
  show "lowercased (push_message c (newMessage f t m mt env) env)" if "lowercased c"
    for c f t m mt env
    using that by (rule lowercased_push)
  show "list_all lowercased (map snd (stored first_start))"
    by (simp add: stored_first_start)
qed

lemma map_toLowerCase_fixed: "list_all (\<lambda>p. toLowerCase p = p) ps \<Longrightarrow> map toLowerCase ps = ps"
  by (induction ps) simp_all

lemma spec_countFor_canonical_eq:
  "list_all lowercased (map snd s) \<Longrightarrow> spec_countFor_canonical s wallet = spec_countFor s wallet"
proof (induction s)
  case Nil
  then show ?case by (simp add: spec_countFor_canonical_def spec_countFor_def)
next
  case (Cons p s)
  obtain k c where p: "p = (k, c)" by (cases p)
  from Cons.prems p have c: "lowercased c" and rest: "list_all lowercased (map snd s)"
    by simp_all
  have "map toLowerCase (participants c) = participants c"
    using c by (simp add: lowercased_def map_toLowerCase_fixed)
  then have parts: "toLowerCase wallet \<in> set (map toLowerCase (participants c)) \<longleftrightarrow>
      toLowerCase wallet \<in> set (participants c)"
    by (simp only:)
  have msgs: "filter (\<lambda>msg. toLowerCase (m_to msg) = toLowerCase wallet \<and> \<not> m_read msg) (messages c) =
      filter (\<lambda>msg. m_to msg = toLowerCase wallet \<and> \<not> m_read msg) (messages c)"
    using c by (intro filter_cong) (auto simp: lowercased_def list_all_iff)
  have "spec_countFor_canonical ((k, c) # s) wallet =
      (if toLowerCase wallet \<in> set (participants c)
       then unread_for (toLowerCase wallet) (messages c) else 0) + spec_countFor_canonical s wallet"
    by (simp add: spec_countFor_canonical_def unread_for_def parts msgs del: set_map)
  then show ?case
    using Cons.IH [OF rest] p by (simp add: spec_countFor_Cons)
qed

text \<open>
  C10. After any sequence of requests on a server that starts without a file, the
  participants of every conversation and the \<open>from\<close> and \<open>to\<close> of every message are lower-case
  forms; and the unread count of a wallet, which compares strings as they are, is the count
  that compares wallets by their lower-case forms.
\<close>

theorem lowercase_store_unread_canonical:
  "list_all lowercased (map snd (stored (run reqs first_start))) \<and>
   fst (chat_unread wallet (run reqs first_start)) =
     spec_countFor_canonical (stored (run reqs first_start)) wallet"
proof -
  have "list_all lowercased (map snd (stored (run reqs first_start)))"
    by (rule lowercased_run)
  then show ?thesis
    by (simp add: chat_unread_eq spec_countFor_canonical_eq)
qed

section \<open>Available users\<close>

lemma add_participant_eq:
  "add_participant userWallet p acc =
     (if toLowerCase (walletAddress p) \<noteq> userWallet \<and> toLowerCase (walletAddress p) \<notin> fst ` set acc
      then acc @ [(toLowerCase (walletAddress p), p)] else acc)"
  by (simp add: add_participant_def Let_def map_of_eq_None_iff)

lemma fold_add_participant:
  "fold (add_participant userWallet) ps acc =
     acc @ map (\<lambda>p. (toLowerCase (walletAddress p), p))
       (dedup_by (\<lambda>p. toLowerCase (walletAddress p))
          (filter (\<lambda>p. toLowerCase (walletAddress p) \<noteq> userWallet \<and>
                       toLowerCase (walletAddress p) \<notin> fst ` set acc) ps))"
proof (induction ps arbitrary: acc)
  case Nil
  then show ?case by simp
next
  case (Cons x xs)
  let ?key = "\<lambda>p. toLowerCase (walletAddress p)"
  let ?P = "\<lambda>acc p. ?key p \<noteq> userWallet \<and> ?key p \<notin> fst ` set acc"
  show ?case
  proof (cases "?P acc x")
    case True
    let ?acc' = "acc @ [(?key x, x)]"
    have step: "add_participant userWallet x acc = ?acc'"
      using True by (simp add: add_participant_eq)
    have again: "filter (\<lambda>y. ?key y \<noteq> ?key x) (filter (?P acc) xs) = filter (?P ?acc') xs"
      by (auto intro: filter_cong)
    have "fold (add_participant userWallet) (x # xs) acc =
        fold (add_participant userWallet) xs ?acc'"
      by (simp only: fold_simps step)
    also have "\<dots> = ?acc' @ map (\<lambda>p. (?key p, p)) (dedup_by ?key (filter (?P ?acc') xs))"
      by (rule Cons.IH)
    also have "\<dots> = acc @ map (\<lambda>p. (?key p, p)) (x # dedup_by ?key (filter (?P ?acc') xs))"
      by simp
    also have "x # dedup_by ?key (filter (?P ?acc') xs) = dedup_by ?key (x # filter (?P acc) xs)"
      by (simp only: dedup_by.simps again)
    also have "x # filter (?P acc) xs = filter (?P acc) (x # xs)"
      using True by simp
    finally show ?thesis .
  next
    case False
    then have step: "add_participant userWallet x acc = acc"
      by (simp add: add_participant_eq)
    have "fold (add_participant userWallet) (x # xs) acc = fold (add_participant userWallet) xs acc"
      by (simp only: fold_simps step)
    also have "\<dots> = acc @ map (\<lambda>p. (?key p, p)) (dedup_by ?key (filter (?P acc) xs))"
      by (rule Cons.IH)
    also have "filter (?P acc) xs = filter (?P acc) (x # xs)"
      using False by simp
    finally show ?thesis .
  qed
qed

lemma isParticipant_roster:
  "isParticipant userWallet t = list_ex (\<lambda>p. toLowerCase (walletAddress p) = userWallet) (roster_of t)"
  by (simp add: isParticipant_def roster_of_def split: option.splits)

lemma visit_tournament_eq:
  "visit_tournament (toLowerCase wallet) t acc =
     fold (add_participant (toLowerCase wallet))
       (if spec_shared_open wallet t then roster_of t else []) acc"
  by (simp add: visit_tournament_def spec_shared_open_def isParticipant_roster roster_of_def
      split: option.splits)

lemma fold_visit_tournament:
  "fold (visit_tournament (toLowerCase wallet)) ts acc =
     fold (add_participant (toLowerCase wallet))
       (concat (map roster_of (filter (spec_shared_open wallet) ts))) acc"
  by (induction ts arbitrary: acc) (simp_all add: visit_tournament_eq)

lemma visit_game_eq:
  "visit_game (toLowerCase wallet) g acc =
     fold (add_participant (toLowerCase wallet))
       (concat (map roster_of (filter (spec_shared_open wallet) (tournaments_of g)))) acc"
  by (simp add: visit_game_def tournaments_of_def fold_visit_tournament split: option.splits)

lemma fold_visit_game:
  "fold (visit_game (toLowerCase wallet)) gs acc =
     fold (add_participant (toLowerCase wallet))
       (concat (map roster_of (filter (spec_shared_open wallet) (concat (map tournaments_of gs))))) acc"
  by (induction gs arbitrary: acc) (simp_all add: visit_game_eq)

lemma collected_peers:
  "map snd (fold (visit_game (toLowerCase wallet)) gamesData []) = spec_peers wallet gamesData"
  by (simp add: fold_visit_game fold_add_participant spec_peers_def comp_def)

lemma chat_available_users_Games:
  "fst (chat_available_users wallet (Games gamesData) d) =
     Inr \<lparr>r_users = map (with_unread (toLowerCase wallet) (stored d)) (spec_peers wallet gamesData),
          r_count = length (spec_peers wallet gamesData)\<rparr>"
proof -
  have "fst (chat_available_users wallet (Games gamesData) d) =
      Inr \<lparr>r_users = map (with_unread (toLowerCase wallet) (stored d))
                        (map snd (fold (visit_game (toLowerCase wallet)) gamesData [])),
           r_count = length (map (with_unread (toLowerCase wallet) (stored d))
                        (map snd (fold (visit_game (toLowerCase wallet)) gamesData [])))\<rparr>"
    by (simp add: chat_available_users_def split_beta Let_def stored_def)
  then show ?thesis
    by (simp only: collected_peers length_map)
qed

lemma with_unread_walletAddress:
  "map_of (with_unread userWallet s p) ''walletAddress'' = Some (JString (walletAddress p))"
  by (simp add: with_unread_def Let_def)

text \<open>
  C8. For every roster, the handler answers with one user for each peer of the
  specification, in the same order: the participants of the tournaments that are not
  finished and that the wallet takes part in, the wallet itself left out, each wallet
  identity once, with the wallet address and the profile of its first occurrence.
\<close>

theorem available_users_are_spec_peers:
  "\<exists>resp. fst (chat_available_users wallet (Games gamesData) d) = Inr resp \<and>
      r_count resp = length (spec_peers wallet gamesData) \<and>
      map (\<lambda>u. map_of u ''walletAddress'') (r_users resp) =
        map (\<lambda>p. Some (JString (walletAddress p))) (spec_peers wallet gamesData) \<and>
      r_users resp = map (with_unread (toLowerCase wallet) (stored d)) (spec_peers wallet gamesData)"
  by (simp add: chat_available_users_Games with_unread_walletAddress comp_def)

theorem available_users_are_spec_peers_witness:
  "(\<exists>resp. fst (chat_available_users ''0xAa'' (Games example_games) first_start) = Inr resp \<and>
      r_count resp = length (spec_peers ''0xAa'' example_games) \<and>
      map (\<lambda>u. map_of u ''walletAddress'') (r_users resp) =
        map (\<lambda>p. Some (JString (walletAddress p))) (spec_peers ''0xAa'' example_games) \<and>
      r_users resp =
        map (with_unread (toLowerCase ''0xAa'') (stored first_start)) (spec_peers ''0xAa'' example_games)) \<and>
   map walletAddress (spec_peers ''0xAa'' example_games) = [''0xBb'', ''0xDD'']"
proof -
  have "map walletAddress (spec_peers ''0xAa'' example_games) = [''0xBb'', ''0xDD'']"
    by code_simp
  with available_users_are_spec_peers [of "''0xAa''" example_games first_start]
  show ?thesis by blast
qed





end
